theory Spec2Isabelle
  imports Main
begin

section \<open>Python values, entities and the mapped class\<close>

text \<open>
  The values a column can hold: Python's \<open>None\<close>, integers and strings (UUIDs and other
  keys are strings here). An entity instance is a Python object: its object identity
  \<open>oid\<close> (what \<open>is\<close> compares) and its fields in declaration order. The mapped class
  \<open>self.model\<close> is described by its field names and the name of its primary key.
\<close>

datatype pyval = PyNone | PyInt int | PyStr string

type_synonym fields = "(string \<times> pyval) list"

record pyobj =
  oid :: nat
  attrs :: fields

record model_desc =
  model_fields :: "string list"
  primary_key :: string

text \<open>Attribute read on an instance; a field that was never assigned reads as \<open>None\<close>.\<close>

definition getattr :: "fields \<Rightarrow> string \<Rightarrow> pyval" where
  "getattr a k = (case map_of a k of Some v \<Rightarrow> v | None \<Rightarrow> PyNone)"

text \<open>Attribute write on an instance: \<open>setattr(self, key, value)\<close>.\<close>

fun setattr :: "fields \<Rightarrow> string \<Rightarrow> pyval \<Rightarrow> fields" where
  "setattr [] k v = [(k, v)]"
| "setattr ((k', v') # a) k v = (if k' = k then (k, v) # a else (k', v') # setattr a k v)"

definition pk_of :: "model_desc \<Rightarrow> fields \<Rightarrow> pyval" where
  "pk_of m a = getattr a (primary_key m)"

text \<open>\<open>entity.model_dump()\<close>: the dict of every field of the instance, unset ones included.\<close>

definition model_dump :: "pyobj \<Rightarrow> fields" where
  "model_dump e = attrs e"

text \<open>\<open>dict.pop(key)\<close> on the copy of the update dict.\<close>

definition dict_pop :: "fields \<Rightarrow> string \<Rightarrow> fields" where
  "dict_pop d k = filter (\<lambda>(k', v). k' \<noteq> k) d"

text \<open>
  \<open>SQLModel.sqlmodel_update(self, obj, update=...)\<close> for \<open>obj\<close> a model instance: for each
  field of \<open>obj\<close>, the value popped from the update dict when the key is there and
  \<open>getattr(obj, key)\<close> otherwise is written on \<open>self\<close>; a key left in the update dict is
  written when it names a field of \<open>self\<close>.
\<close>

fun update_loop :: "string list \<Rightarrow> fields \<Rightarrow> fields \<Rightarrow> fields \<Rightarrow> fields \<times> fields" where
  "update_loop [] obj use_update self = (self, use_update)"
| "update_loop (key # keys) obj use_update self =
     (case map_of use_update key of
        Some v \<Rightarrow> update_loop keys obj (dict_pop use_update key) (setattr self key v)
      | None \<Rightarrow> update_loop keys obj use_update (setattr self key (getattr obj key)))"

fun remaining_loop :: "fields \<Rightarrow> string list \<Rightarrow> fields \<Rightarrow> fields" where
  "remaining_loop [] self_fields self = self"
| "remaining_loop ((k, v) # rest) self_fields self =
     remaining_loop rest self_fields (if k \<in> set self_fields then setattr self k v else self)"

definition sqlmodel_update :: "pyobj \<Rightarrow> pyobj \<Rightarrow> fields \<Rightarrow> pyobj" where
  "sqlmodel_update self obj upd =
     (let (a, rest) = update_loop (map fst (attrs obj)) (attrs obj) upd (attrs self)
      in self\<lparr>attrs := remaining_loop rest (map fst (attrs self)) a\<rparr>)"

section \<open>The session\<close>

text \<open>
  The session collaborator, for the table of the mapped class: the rows the current
  transaction sees (in insertion order), the rows last committed, the staged unit of
  work, the identity map from tracked objects to the key of their row, and the calls
  received so far (what a mock session records).
\<close>

datatype error = AttributeError | UnmappedInstanceError | InvalidRequestError | StoreError

datatype stmt = SelectFrom | SelectCountFrom | DeleteFrom

record query =
  stmt :: stmt
  criteria :: fields
  q_offset :: "int option"
  q_limit :: "int option"

datatype staged = Insert nat fields | Update nat fields | Remove nat

datatype call =
    CallGet pyval
  | CallAdd pyobj
  | CallDelete "pyobj option"
  | CallCommit
  | CallRefresh pyobj
  | CallExec query

datatype result = Rows "pyobj list" | Scalar int | NoRows

record session_state =
  rows :: "fields list"
  committed :: "fields list"
  pending :: "staged list"
  identity_map :: "(nat \<times> pyval) list"
  next_oid :: nat
  calls :: "call list"

definition logged :: "call \<Rightarrow> session_state \<Rightarrow> session_state" where
  "logged c s = s\<lparr>calls := calls s @ [c]\<rparr>"

text \<open>
  Loading a row gives the object the identity map already holds for its key, or a new
  object that the map then tracks.
\<close>

definition load_row :: "model_desc \<Rightarrow> fields \<Rightarrow> session_state \<Rightarrow> pyobj \<times> session_state" where
  "load_row m r s =
     (case find (\<lambda>(ob, k). k = pk_of m r) (identity_map s) of
        Some (ob, k) \<Rightarrow> (\<lparr>oid = ob, attrs = r\<rparr>, s)
      | None \<Rightarrow> (\<lparr>oid = next_oid s, attrs = r\<rparr>,
                 s\<lparr>identity_map := identity_map s @ [(next_oid s, pk_of m r)],
                   next_oid := Suc (next_oid s)\<rparr>))"

fun load_rows :: "model_desc \<Rightarrow> fields list \<Rightarrow> session_state \<Rightarrow> pyobj list \<times> session_state" where
  "load_rows m [] s = ([], s)"
| "load_rows m (r # rs) s =
     (let (ob, s1) = load_row m r s; (obs, s2) = load_rows m rs s1 in (ob # obs, s2))"

text \<open>\<open>session.get(model, id)\<close>: a lookup by key; an absent row gives \<open>None\<close>, not an error.\<close>

definition session_get ::
  "model_desc \<Rightarrow> pyval \<Rightarrow> session_state \<Rightarrow> (error + pyobj option) \<times> session_state" where
  "session_get m ident s =
     (let s0 = logged (CallGet ident) s
      in case find (\<lambda>r. pk_of m r = ident) (rows s0) of
           None \<Rightarrow> (Inr None, s0)
         | Some r \<Rightarrow> (let (ob, s1) = load_row m r s0 in (Inr (Some ob), s1)))"

text \<open>
  \<open>session.add(obj)\<close> stages the object: an insert for an object the session does not
  track, an update of its row for one it does.
\<close>

definition session_add ::
  "model_desc \<Rightarrow> pyobj \<Rightarrow> session_state \<Rightarrow> (error + unit) \<times> session_state" where
  "session_add m ob s =
     (let s0 = logged (CallAdd ob) s
      in (Inr (),
          s0\<lparr>pending := pending s0 @
                [if map_of (identity_map s0) (oid ob) \<noteq> None then Update (oid ob) (attrs ob)
                 else Insert (oid ob) (attrs ob)]\<rparr>))"

text \<open>
  \<open>session.delete(obj)\<close>: \<open>None\<close> is not a mapped instance (UnmappedInstanceError), an
  object the session does not track is not persisted (InvalidRequestError), a tracked
  object is staged for deletion.
\<close>

definition session_delete ::
  "model_desc \<Rightarrow> pyobj option \<Rightarrow> session_state \<Rightarrow> (error + unit) \<times> session_state" where
  "session_delete m item s =
     (let s0 = logged (CallDelete item) s
      in case item of
           None \<Rightarrow> (Inl UnmappedInstanceError, s0)
         | Some ob \<Rightarrow>
             (if map_of (identity_map s0) (oid ob) \<noteq> None
              then (Inr (), s0\<lparr>pending := pending s0 @ [Remove (oid ob)]\<rparr>)
              else (Inl InvalidRequestError, s0)))"

text \<open>The key the store gives a row inserted without one: one more than the largest integer key.\<close>

fun int_keys :: "pyval list \<Rightarrow> int list" where
  "int_keys [] = []"
| "int_keys (PyInt i # ks) = i # int_keys ks"
| "int_keys (k # ks) = int_keys ks"

definition fresh_key :: "model_desc \<Rightarrow> fields list \<Rightarrow> pyval" where
  "fresh_key m rs = PyInt (1 + fold max (int_keys (map (pk_of m) rs)) 0)"

text \<open>
  Flushing one staged change. The primary key is unique and not null: an insert or an
  update that breaks this is refused by the store.
\<close>

fun flush_one :: "model_desc \<Rightarrow> staged \<Rightarrow> session_state \<Rightarrow> error + session_state" where
  "flush_one m (Insert ob a) s =
     (let a' = (if pk_of m a = PyNone then setattr a (primary_key m) (fresh_key m (rows s)) else a)
      in if pk_of m a' \<in> set (map (pk_of m) (rows s)) then Inl StoreError
         else Inr (s\<lparr>rows := rows s @ [a'],
                     identity_map := identity_map s @ [(ob, pk_of m a')]\<rparr>))"
| "flush_one m (Update ob a) s =
     (case map_of (identity_map s) ob of
        None \<Rightarrow> Inl InvalidRequestError
      | Some k \<Rightarrow>
          if pk_of m a = PyNone then Inl StoreError
          else if pk_of m a \<noteq> k \<and> pk_of m a \<in> set (map (pk_of m) (rows s)) then Inl StoreError
          else Inr (s\<lparr>rows := map (\<lambda>r. if pk_of m r = k then a else r) (rows s),
                      identity_map :=
                        map (\<lambda>(ob', k'). if ob' = ob then (ob', pk_of m a) else (ob', k'))
                          (identity_map s)\<rparr>))"
| "flush_one m (Remove ob) s =
     (case map_of (identity_map s) ob of
        None \<Rightarrow> Inl InvalidRequestError
      | Some k \<Rightarrow>
          Inr (s\<lparr>rows := filter (\<lambda>r. pk_of m r \<noteq> k) (rows s),
                 identity_map := filter (\<lambda>(ob', k'). ob' \<noteq> ob) (identity_map s)\<rparr>))"

fun flush_all :: "model_desc \<Rightarrow> staged list \<Rightarrow> session_state \<Rightarrow> error + session_state" where
  "flush_all m [] s = Inr s"
| "flush_all m (c # cs) s =
     (case flush_one m c s of Inl e \<Rightarrow> Inl e | Inr s' \<Rightarrow> flush_all m cs s')"

text \<open>
  A flush applies the unit of work in order; a refused change rolls the transaction back
  to the committed rows and raises.
\<close>

definition flush :: "model_desc \<Rightarrow> session_state \<Rightarrow> (error + unit) \<times> session_state" where
  "flush m s =
     (case flush_all m (pending s) s of
        Inl e \<Rightarrow> (Inl e, s\<lparr>rows := committed s, pending := []\<rparr>)
      | Inr s' \<Rightarrow> (Inr (), s'\<lparr>pending := []\<rparr>))"

text \<open>\<open>session.commit()\<close>: flush, then make the transaction's rows the committed ones.\<close>

definition session_commit :: "model_desc \<Rightarrow> session_state \<Rightarrow> (error + unit) \<times> session_state" where
  "session_commit m s =
     (case flush m (logged CallCommit s) of
        (Inl e, s') \<Rightarrow> (Inl e, s')
      | (Inr u, s') \<Rightarrow> (Inr (), s'\<lparr>committed := rows s'\<rparr>))"

text \<open>
  \<open>session.refresh(obj)\<close>: reload the fields of a tracked object from its row; the
  refreshed object is the value returned here.
\<close>

definition session_refresh ::
  "model_desc \<Rightarrow> pyobj \<Rightarrow> session_state \<Rightarrow> (error + pyobj) \<times> session_state" where
  "session_refresh m ob s =
     (let s0 = logged (CallRefresh ob) s
      in case map_of (identity_map s0) (oid ob) of
           None \<Rightarrow> (Inl InvalidRequestError, s0)
         | Some k \<Rightarrow>
             (case find (\<lambda>r. pk_of m r = k) (rows s0) of
                None \<Rightarrow> (Inl InvalidRequestError, s0)
              | Some r \<Rightarrow> (Inr (ob\<lparr>attrs := r\<rparr>), s0)))"

text \<open>A row satisfies the criteria when every \<open>column == value\<close> entry holds on it.\<close>

definition matches :: "fields \<Rightarrow> fields \<Rightarrow> bool" where
  "matches crit r = list_all (\<lambda>(k, v). getattr r k = v) crit"

definition window :: "int option \<Rightarrow> int option \<Rightarrow> 'a list \<Rightarrow> 'a list" where
  "window off lim xs =
     (let ys = (case off of None \<Rightarrow> xs | Some n \<Rightarrow> drop (nat n) xs)
      in case lim of None \<Rightarrow> ys | Some n \<Rightarrow> take (nat n) ys)"

definition bad_window :: "query \<Rightarrow> bool" where
  "bad_window q =
     ((case q_offset q of None \<Rightarrow> False | Some n \<Rightarrow> n < 0) \<or>
      (case q_limit q of None \<Rightarrow> False | Some n \<Rightarrow> n < 0))"

text \<open>
  \<open>session.exec(query)\<close>: the staged work is flushed first, then the statement runs on
  the transaction's rows. The store refuses a negative OFFSET or LIMIT.
\<close>

definition run_query :: "model_desc \<Rightarrow> query \<Rightarrow> session_state \<Rightarrow> (error + result) \<times> session_state" where
  "run_query m q s =
     (case stmt q of
        SelectFrom \<Rightarrow>
          (if bad_window q then (Inl StoreError, s)
           else (let (obs, s') =
                       load_rows m (window (q_offset q) (q_limit q)
                                      (filter (matches (criteria q)) (rows s))) s
                 in (Inr (Rows obs), s')))
      | SelectCountFrom \<Rightarrow>
          (Inr (Scalar (int (length (filter (matches (criteria q)) (rows s))))), s)
      | DeleteFrom \<Rightarrow>
          (Inr NoRows,
           s\<lparr>rows := filter (\<lambda>r. \<not> matches (criteria q) r) (rows s),
             identity_map :=
               filter (\<lambda>(ob, k). k \<notin> set (map (pk_of m) (filter (matches (criteria q)) (rows s))))
                 (identity_map s)\<rparr>))"

definition session_exec ::
  "model_desc \<Rightarrow> query \<Rightarrow> session_state \<Rightarrow> (error + result) \<times> session_state" where
  "session_exec m q s =
     (case flush m (logged (CallExec q) s) of
        (Inl e, s') \<Rightarrow> (Inl e, s')
      | (Inr u, s') \<Rightarrow> run_query m q s')"

section \<open>The CRUD class\<close>

text \<open>
  Sessions are shared mutable objects: the world maps a session reference to its state,
  and a CRUD instance holds the mapped class and the reference of the session given to
  its constructor.
\<close>

type_synonym world = "nat \<Rightarrow> session_state"

record crud =
  model :: model_desc
  session :: nat

text \<open>Sequencing with exceptions: an error stops the method and keeps the state reached.\<close>

definition then_do ::
  "('s \<Rightarrow> (error + 'a) \<times> 's) \<Rightarrow> ('a \<Rightarrow> 's \<Rightarrow> (error + 'b) \<times> 's) \<Rightarrow> 's \<Rightarrow> (error + 'b) \<times> 's" where
  "then_do f g s = (case f s of (Inl e, s') \<Rightarrow> (Inl e, s') | (Inr x, s') \<Rightarrow> g x s')"

definition returns :: "'a \<Rightarrow> 's \<Rightarrow> (error + 'a) \<times> 's" where
  "returns x s = (Inr x, s)"

definition raises :: "error \<Rightarrow> 's \<Rightarrow> (error + 'a) \<times> 's" where
  "raises e s = (Inl e, s)"

text \<open>A call on the session object behind a reference.\<close>

definition on_session ::
  "nat \<Rightarrow> (session_state \<Rightarrow> 'a \<times> session_state) \<Rightarrow> world \<Rightarrow> 'a \<times> world" where
  "on_session sid f w = (case f (w sid) of (x, s') \<Rightarrow> (x, w(sid := s')))"

definition CRUD_init :: "model_desc \<Rightarrow> nat \<Rightarrow> crud" where
  "CRUD_init m sid = \<lparr>model = m, session = sid\<rparr>"

definition CRUD_read :: "crud \<Rightarrow> pyval \<Rightarrow> world \<Rightarrow> (error + pyobj option) \<times> world" where
  "CRUD_read self ident = on_session (session self) (session_get (model self) ident)"

text \<open>
  The loop \<open>for key, value in where.items(): query = query.where(getattr(self.model, key) == value)\<close>:
  a key that names no attribute of the mapped class raises AttributeError. The fields
  are the only attributes of the class described here, so every other key raises.
\<close>

fun where_loop :: "model_desc \<Rightarrow> fields \<Rightarrow> query \<Rightarrow> error + query" where
  "where_loop m [] q = Inr q"
| "where_loop m ((key, v) # rest) q =
     (if key \<in> set (model_fields m)
      then where_loop m rest (q\<lparr>criteria := criteria q @ [(key, v)]\<rparr>)
      else Inl AttributeError)"

definition new_query :: "stmt \<Rightarrow> query" where
  "new_query k = \<lparr>stmt = k, criteria = [], q_offset = None, q_limit = None\<rparr>"

text \<open>An argument left out takes the default of the signature.\<close>

definition or_default :: "int \<Rightarrow> int option \<Rightarrow> int" where
  "or_default d x = (case x of None \<Rightarrow> d | Some n \<Rightarrow> n)"

definition or_empty :: "fields option \<Rightarrow> fields" where
  "or_empty wh = (case wh of None \<Rightarrow> [] | Some d \<Rightarrow> d)"

fun one :: "result \<Rightarrow> error + int" where
  "one (Scalar n) = Inr n"
| "one r = Inl InvalidRequestError"

fun all_rows :: "result \<Rightarrow> pyobj list" where
  "all_rows (Rows obs) = obs"
| "all_rows r = []"

definition CRUD_count :: "crud \<Rightarrow> fields option \<Rightarrow> world \<Rightarrow> (error + int) \<times> world" where
  "CRUD_count self wh =
     (case where_loop (model self) (or_empty wh) (new_query SelectCountFrom) of
        Inl e \<Rightarrow> raises e
      | Inr q \<Rightarrow>
          then_do (on_session (session self) (session_exec (model self) q))
            (\<lambda>res. case one res of Inl e \<Rightarrow> raises e | Inr n \<Rightarrow> returns n))"

definition CRUD_create :: "crud \<Rightarrow> pyobj \<Rightarrow> world \<Rightarrow> (error + pyobj) \<times> world" where
  "CRUD_create self entity =
     then_do (on_session (session self) (session_add (model self) entity))
       (\<lambda>u. then_do (on_session (session self) (session_commit (model self)))
         (\<lambda>u. on_session (session self) (session_refresh (model self) entity)))"

text \<open>
  \<open>update\<close>: \<open>read\<close> gives \<open>None\<close> for an absent row, and \<open>item.sqlmodel_update\<close> on
  \<open>None\<close> raises AttributeError. Otherwise the item is merged with the dump of the
  entity (the item itself is passed as \<open>obj\<close>), staged, committed and refreshed.
\<close>

definition CRUD_update :: "crud \<Rightarrow> pyval \<Rightarrow> pyobj \<Rightarrow> world \<Rightarrow> (error + pyobj) \<times> world" where
  "CRUD_update self ident entity =
     then_do (CRUD_read self ident)
       (\<lambda>item. case item of
          None \<Rightarrow> raises AttributeError
        | Some it \<Rightarrow>
            (let it' = sqlmodel_update it it (model_dump entity)
             in then_do (on_session (session self) (session_add (model self) it'))
                  (\<lambda>u. then_do (on_session (session self) (session_commit (model self)))
                    (\<lambda>u. on_session (session self) (session_refresh (model self) it')))))"

text \<open>
  \<open>delete\<close>: \<open>ident\<close> is the \<open>id\<close> argument (\<open>PyNone\<close> when it is \<open>None\<close> or left out),
  \<open>sess\<close> the \<open>session\<close> argument, a session reference or \<open>None\<close>. The value returned is
  the dict \<open>{"ok": True}\<close>.
\<close>

definition CRUD_delete ::
  "crud \<Rightarrow> pyval \<Rightarrow> fields option \<Rightarrow> nat option \<Rightarrow> world \<Rightarrow> (error + (string \<times> bool) list) \<times> world" where
  "CRUD_delete self ident wh sess =
     then_do
       (if ident = PyNone
        then (case where_loop (model self) (or_empty wh) (new_query DeleteFrom) of
                Inl e \<Rightarrow> raises e
              | Inr q \<Rightarrow>
                  then_do (on_session (session self) (session_exec (model self) q))
                    (\<lambda>res. on_session (session self) (session_commit (model self))))
        else then_do (CRUD_read self ident)
               (\<lambda>item. then_do (on_session (session self) (session_delete (model self) item))
                 (\<lambda>u. on_session (session self) (session_commit (model self)))))
       (\<lambda>u. returns [(''ok'', True)])"

text \<open>
  \<open>select\<close>: \<open>skip\<close> and \<open>limit\<close> are \<open>None\<close> when the caller leaves them out, and then
  take the defaults of the signature, 0 and 100.
\<close>

definition CRUD_select ::
  "crud \<Rightarrow> fields option \<Rightarrow> int option \<Rightarrow> int option \<Rightarrow> world
     \<Rightarrow> (error + pyobj list option) \<times> world" where
  "CRUD_select self wh skip limit =
     (let skip' = or_default 0 skip; limit' = or_default 100 limit
      in case where_loop (model self) (or_empty wh) (new_query SelectFrom) of
           Inl e \<Rightarrow> raises e
         | Inr q \<Rightarrow>
             then_do (on_session (session self)
                        (session_exec (model self) (q\<lparr>q_offset := Some skip', q_limit := Some limit'\<rparr>)))
               (\<lambda>res. let results = all_rows res
                      in returns (if results \<noteq> [] then Some results else None)))"

section \<open>The methods as programs on the bound session\<close>

text \<open>
  Every call of a method goes to \<open>self.session\<close>, so a method is one program run on the
  state of that session. These are the programs; the lemmas \<open>CRUD_*_on_session\<close> below
  show that the methods are exactly these.
\<close>

definition create_body :: "model_desc \<Rightarrow> pyobj \<Rightarrow> session_state \<Rightarrow> (error + pyobj) \<times> session_state" where
  "create_body m entity =
     then_do (session_add m entity)
       (\<lambda>u. then_do (session_commit m) (\<lambda>u. session_refresh m entity))"

definition update_body ::
  "model_desc \<Rightarrow> pyval \<Rightarrow> pyobj \<Rightarrow> session_state \<Rightarrow> (error + pyobj) \<times> session_state" where
  "update_body m ident entity =
     then_do (session_get m ident)
       (\<lambda>item. case item of
          None \<Rightarrow> raises AttributeError
        | Some it \<Rightarrow>
            (let it' = sqlmodel_update it it (model_dump entity)
             in then_do (session_add m it')
                  (\<lambda>u. then_do (session_commit m) (\<lambda>u. session_refresh m it'))))"

definition delete_body ::
  "model_desc \<Rightarrow> pyval \<Rightarrow> fields option \<Rightarrow> session_state
     \<Rightarrow> (error + (string \<times> bool) list) \<times> session_state" where
  "delete_body m ident wh =
     then_do
       (if ident = PyNone
        then (case where_loop m (or_empty wh) (new_query DeleteFrom) of
                Inl e \<Rightarrow> raises e
              | Inr q \<Rightarrow> then_do (session_exec m q) (\<lambda>res. session_commit m))
        else then_do (session_get m ident)
               (\<lambda>item. then_do (session_delete m item) (\<lambda>u. session_commit m)))
       (\<lambda>u. returns [(''ok'', True)])"

definition select_body ::
  "model_desc \<Rightarrow> fields option \<Rightarrow> int option \<Rightarrow> int option \<Rightarrow> session_state
     \<Rightarrow> (error + pyobj list option) \<times> session_state" where
  "select_body m wh skip limit =
     (let skip' = or_default 0 skip; limit' = or_default 100 limit
      in case where_loop m (or_empty wh) (new_query SelectFrom) of
           Inl e \<Rightarrow> raises e
         | Inr q \<Rightarrow>
             then_do (session_exec m (q\<lparr>q_offset := Some skip', q_limit := Some limit'\<rparr>))
               (\<lambda>res. let results = all_rows res
                      in returns (if results \<noteq> [] then Some results else None)))"

text \<open>
  A session between two calls: nothing staged, every tracked object tracked once, and
  the next object identity not in use. An instance of the model has exactly its fields,
  in declaration order.
\<close>

definition session_ok :: "session_state \<Rightarrow> bool" where
  "session_ok s \<longleftrightarrow>
     pending s = [] \<and> distinct (map fst (identity_map s))
     \<and> list_all (\<lambda>(ob, k). ob < next_oid s) (identity_map s)"

definition instance_of :: "model_desc \<Rightarrow> fields \<Rightarrow> bool" where
  "instance_of m a \<longleftrightarrow> map fst a = model_fields m"

section \<open>A concrete store\<close>

text \<open>
  The entity of the test suite: items with a key, a title, an optional description and
  an owner. Session 0 holds three items of owner \<open>u1\<close> and one of owner \<open>u2\<close>; session 1
  is another, empty session.
\<close>

definition Item :: model_desc where
  "Item = \<lparr>model_fields = [''id'', ''title'', ''description'', ''owner_id''], primary_key = ''id''\<rparr>"

definition item :: "pyval \<Rightarrow> string \<Rightarrow> pyval \<Rightarrow> string \<Rightarrow> fields" where
  "item i t d u = [(''id'', i), (''title'', PyStr t), (''description'', d), (''owner_id'', PyStr u)]"

definition empty_session :: session_state where
  "empty_session = \<lparr>rows = [], committed = [], pending = [], identity_map = [], next_oid = 0, calls = []\<rparr>"

definition shop_rows :: "fields list" where
  "shop_rows =
     [item (PyInt 1) ''Item title 1'' (PyStr ''first'') ''u1'',
      item (PyInt 2) ''Item title 2'' PyNone ''u1'',
      item (PyInt 3) ''Item title 3'' PyNone ''u1'',
      item (PyInt 4) ''Item title 1'' PyNone ''u2'']"

definition shop :: world where
  "shop = (\<lambda>sid. empty_session)(0 := empty_session\<lparr>rows := shop_rows, committed := shop_rows\<rparr>)"

definition items :: crud where
  "items = CRUD_init Item 0"

section \<open>Reading by key\<close>

lemma find_None_pk: "ident \<notin> set (map (pk_of m) rs) \<Longrightarrow> find (\<lambda>r. pk_of m r = ident) rs = None"
  by (induction rs) auto

lemma find_Some_pk:
  "ident \<in> set (map (pk_of m) rs) \<Longrightarrow> \<exists>r. find (\<lambda>r. pk_of m r = ident) rs = Some r \<and> r \<in> set rs \<and> pk_of m r = ident"
  by (induction rs) auto

lemma load_row_attrs: "attrs (fst (load_row m r s)) = r"
  by (simp add: load_row_def split: option.splits prod.splits)

lemma load_row_rows: "rows (snd (load_row m r s)) = rows s"
  and load_row_committed: "committed (snd (load_row m r s)) = committed s"
  and load_row_pending: "pending (snd (load_row m r s)) = pending s"
  and load_row_calls: "calls (snd (load_row m r s)) = calls s"
  by (simp_all add: load_row_def split: option.splits prod.splits)

lemma session_get_result:
  "fst (session_get m ident s) = Inr (map_option (\<lambda>r. fst (load_row m r (logged (CallGet ident) s)))
                                      (find (\<lambda>r. pk_of m r = ident) (rows s)))"
  by (simp add: session_get_def logged_def Let_def split: option.splits prod.splits)

lemma session_get_frame:
  "rows (snd (session_get m ident s)) = rows s"
  "committed (snd (session_get m ident s)) = committed s"
  "pending (snd (session_get m ident s)) = pending s"
  "calls (snd (session_get m ident s)) = calls s @ [CallGet ident]"
  by (simp_all add: session_get_def logged_def Let_def load_row_def split: option.splits prod.splits)

text \<open>
  C8. \<open>read(id)\<close> never raises: it returns \<open>None\<close> for an id that no row of the store has,
  and for an id that a row has it returns that row (the first row with this key),
  through one \<open>session.get\<close> call on the bound session and nothing else; the rows, the
  committed rows and the staged work are as before, and so is every other session.
\<close>

theorem read_by_key:
  "\<exists>res. fst (CRUD_read self ident w) = Inr res
     \<and> map_option attrs res = find (\<lambda>r. pk_of (model self) r = ident) (rows (w (session self)))
     \<and> (ident \<notin> set (map (pk_of (model self)) (rows (w (session self)))) \<longrightarrow> res = None)
     \<and> (ident \<in> set (map (pk_of (model self)) (rows (w (session self)))) \<longrightarrow>
          (\<exists>ob. res = Some ob \<and> pk_of (model self) (attrs ob) = ident
                \<and> attrs ob \<in> set (rows (w (session self)))))
     \<and> rows (snd (CRUD_read self ident w) (session self)) = rows (w (session self))
     \<and> committed (snd (CRUD_read self ident w) (session self)) = committed (w (session self))
     \<and> pending (snd (CRUD_read self ident w) (session self)) = pending (w (session self))
     \<and> calls (snd (CRUD_read self ident w) (session self)) = calls (w (session self)) @ [CallGet ident]
     \<and> (\<forall>sid. sid \<noteq> session self \<longrightarrow> snd (CRUD_read self ident w) sid = w sid)"
proof -
  let ?m = "model self" and ?s = "w (session self)"
  let ?res = "map_option (\<lambda>r. fst (load_row ?m r (logged (CallGet ident) ?s)))
                (find (\<lambda>r. pk_of ?m r = ident) (rows ?s))"
  have split: "CRUD_read self ident w =
      (fst (session_get ?m ident ?s), w(session self := snd (session_get ?m ident ?s)))"
    by (simp add: CRUD_read_def on_session_def split: prod.splits)
  have r: "fst (CRUD_read self ident w) = Inr ?res"
    by (simp add: split session_get_result)
  have a: "map_option attrs ?res = find (\<lambda>r. pk_of ?m r = ident) (rows ?s)"
    by (cases "find (\<lambda>r. pk_of ?m r = ident) (rows ?s)") (simp_all add: load_row_attrs)
  have n: "ident \<notin> set (map (pk_of ?m) (rows ?s)) \<longrightarrow> ?res = None"
    using find_None_pk [of ident ?m "rows ?s"] by auto
  have p: "ident \<in> set (map (pk_of ?m) (rows ?s)) \<longrightarrow>
      (\<exists>ob. ?res = Some ob \<and> pk_of ?m (attrs ob) = ident \<and> attrs ob \<in> set (rows ?s))"
    using find_Some_pk [of ident ?m "rows ?s"] by (auto simp: load_row_attrs)
  show ?thesis
    using r a n p by (simp add: split session_get_frame)
qed

theorem read_by_key_witness:
  "PyStr ''1fc6b356'' \<notin> set (map (pk_of (model items)) (rows (shop (session items))))
   \<and> fst (CRUD_read items (PyStr ''1fc6b356'') shop) = Inr None
   \<and> PyInt 2 \<in> set (map (pk_of (model items)) (rows (shop (session items))))
   \<and> (\<exists>ob. fst (CRUD_read items (PyInt 2) shop) = Inr (Some ob)
          \<and> attrs ob = item (PyInt 2) ''Item title 2'' PyNone ''u1'')
   \<and> (1::nat) \<noteq> session items \<and> snd (CRUD_read items (PyInt 2) shop) 1 = shop 1"
proof -
  have absent: "PyStr ''1fc6b356'' \<notin> set (map (pk_of (model items)) (rows (shop (session items))))"
    by (simp add: items_def CRUD_init_def shop_def shop_rows_def item_def Item_def empty_session_def
        pk_of_def getattr_def)
  have present: "PyInt 2 \<in> set (map (pk_of (model items)) (rows (shop (session items))))"
    by (simp add: items_def CRUD_init_def shop_def shop_rows_def item_def Item_def empty_session_def
        pk_of_def getattr_def)
  have found: "find (\<lambda>r. pk_of (model items) r = PyInt 2) (rows (shop (session items)))
      = Some (item (PyInt 2) ''Item title 2'' PyNone ''u1'')"
    by (simp add: items_def CRUD_init_def shop_def shop_rows_def item_def Item_def empty_session_def
        pk_of_def getattr_def)
  have other: "(1::nat) \<noteq> session items"
    by (simp add: items_def CRUD_init_def)
  from read_by_key [of items "PyStr ''1fc6b356''" shop] absent
  have 1: "fst (CRUD_read items (PyStr ''1fc6b356'') shop) = Inr None" by auto
  from read_by_key [of items "PyInt 2" shop] found other
  have 2: "(\<exists>ob. fst (CRUD_read items (PyInt 2) shop) = Inr (Some ob)
          \<and> attrs ob = item (PyInt 2) ''Item title 2'' PyNone ''u1'')
      \<and> snd (CRUD_read items (PyInt 2) shop) 1 = shop 1"
    by (auto simp: map_option_case split: option.splits)
  show ?thesis using absent present 1 2 other by blast
qed

section \<open>Methods and the bound session\<close>

lemma on_session_eq: "on_session sid f w = (fst (f (w sid)), w(sid := snd (f (w sid))))"
  by (simp add: on_session_def split: prod.splits)

lemma CRUD_create_on_session:
  "CRUD_create self entity w = on_session (session self) (create_body (model self) entity) w"
  unfolding CRUD_create_def create_body_def
  by (simp add: then_do_def on_session_def split: prod.splits sum.splits)

lemma CRUD_update_on_session:
  "CRUD_update self ident entity w
     = on_session (session self) (update_body (model self) ident entity) w"
  unfolding CRUD_update_def update_body_def CRUD_read_def
  by (simp add: then_do_def on_session_def raises_def Let_def
      split: prod.splits sum.splits option.splits)

lemma CRUD_delete_on_session:
  "CRUD_delete self ident wh sess w
     = on_session (session self) (delete_body (model self) ident wh) w"
  unfolding CRUD_delete_def delete_body_def CRUD_read_def
  by (simp add: then_do_def on_session_def raises_def returns_def Let_def
      split: prod.splits sum.splits option.splits)

lemma CRUD_select_on_session:
  "CRUD_select self wh skip limit w
     = on_session (session self) (select_body (model self) wh skip limit) w"
  unfolding CRUD_select_def select_body_def
  by (simp add: then_do_def on_session_def raises_def returns_def Let_def
      split: prod.splits sum.splits option.splits)

lemma session_get_absent:
  "ident \<notin> set (map (pk_of m) (rows s))
     \<Longrightarrow> session_get m ident s = (Inr None, logged (CallGet ident) s)"
  using find_None_pk [of ident m "rows s"]
  by (simp add: session_get_def logged_def Let_def)

lemma logged_frame:
  "rows (logged c s) = rows s" "committed (logged c s) = committed s"
  "pending (logged c s) = pending s" "identity_map (logged c s) = identity_map s"
  "next_oid (logged c s) = next_oid s" "calls (logged c s) = calls s @ [c]"
  by (simp_all add: logged_def)

lemma shop_simps:
  "session items = 0" "model items = Item" "rows (shop 0) = shop_rows"
  "committed (shop 0) = shop_rows" "pending (shop 0) = []" "identity_map (shop 0) = []"
  "next_oid (shop 0) = 0" "calls (shop 0) = []" "shop 1 = empty_session"
  by (simp_all add: items_def CRUD_init_def shop_def empty_session_def)

lemma shop_keys: "map (pk_of Item) shop_rows = [PyInt 1, PyInt 2, PyInt 3, PyInt 4]"
  by (simp add: shop_rows_def item_def Item_def pk_of_def getattr_def)

section \<open>Update and delete of an absent row\<close>

text \<open>
  C4, as the code has it. \<open>update(id, e2)\<close> for an id that no row has fails, but with
  no not-found signal of its own: the load returns \<open>None\<close> without an error, and the
  merge call on that \<open>None\<close> raises Python's AttributeError. Nothing is staged or
  committed and no row is created: the bound session has only received the one
  \<open>get\<close>, and its rows, committed rows and staged work are as before.
\<close>

theorem update_absent:
  assumes "ident \<notin> set (map (pk_of (model self)) (rows (w (session self))))"
  shows "fst (CRUD_read self ident w) = Inr None
         \<and> CRUD_update self ident entity w
           = (Inl AttributeError, w(session self := logged (CallGet ident) (w (session self))))
         \<and> rows (snd (CRUD_update self ident entity w) (session self)) = rows (w (session self))
         \<and> committed (snd (CRUD_update self ident entity w) (session self))
             = committed (w (session self))
         \<and> pending (snd (CRUD_update self ident entity w) (session self))
             = pending (w (session self))
         \<and> calls (snd (CRUD_update self ident entity w) (session self))
             = calls (w (session self)) @ [CallGet ident]"
proof -
  have "update_body (model self) ident entity (w (session self))
          = (Inl AttributeError, logged (CallGet ident) (w (session self)))"
    by (simp add: update_body_def then_do_def raises_def session_get_absent [OF assms])
  moreover have "fst (CRUD_read self ident w) = Inr None"
    by (simp add: CRUD_read_def on_session_eq session_get_absent [OF assms])
  ultimately show ?thesis
    by (simp add: CRUD_update_on_session on_session_eq logged_frame)
qed

theorem update_absent_witness:
  "PyInt 9 \<notin> set (map (pk_of (model items)) (rows (shop (session items))))
   \<and> fst (CRUD_read items (PyInt 9) shop) = Inr None
   \<and> fst (CRUD_update items (PyInt 9) \<lparr>oid = 7, attrs = item (PyInt 9) ''t'' PyNone ''u1''\<rparr> shop)
       = Inl AttributeError
   \<and> rows (snd (CRUD_update items (PyInt 9) \<lparr>oid = 7, attrs = item (PyInt 9) ''t'' PyNone ''u1''\<rparr> shop)
             (session items)) = shop_rows"
proof -
  have a: "PyInt 9 \<notin> set (map (pk_of (model items)) (rows (shop (session items))))"
    by (simp add: shop_simps shop_keys)
  from update_absent [of "PyInt 9" items shop, OF a] show ?thesis
    using a by (simp add: shop_simps logged_frame)
qed

text \<open>
  The claim C4 as written fails on the concrete store: for the absent id 9 the load
  succeeds with \<open>None\<close>, and the error that \<open>update\<close> raises is not one that marks an
  absent row: it is the AttributeError that \<open>select\<close> raises for a filter key naming
  no attribute of the model.
\<close>

theorem update_absent_counterexample:
  "fst (CRUD_read items (PyInt 9) shop) = Inr None
   \<and> fst (CRUD_update items (PyInt 9) \<lparr>oid = 7, attrs = item (PyInt 9) ''t'' PyNone ''u1''\<rparr> shop)
       = Inl AttributeError
   \<and> fst (CRUD_select items (Some [(''no_such_field'', PyNone)]) None None shop) = Inl AttributeError"
proof -
  have a: "PyInt 9 \<notin> set (map (pk_of Item) (rows (shop 0)))"
    by (simp add: shop_simps shop_keys)
  have "update_body Item (PyInt 9) \<lparr>oid = 7, attrs = item (PyInt 9) ''t'' PyNone ''u1''\<rparr> (shop 0)
          = (Inl AttributeError, logged (CallGet (PyInt 9)) (shop 0))"
    by (simp add: update_body_def then_do_def raises_def session_get_absent [OF a])
  then have u: "fst (CRUD_update items (PyInt 9) \<lparr>oid = 7, attrs = item (PyInt 9) ''t'' PyNone ''u1''\<rparr> shop)
       = Inl AttributeError"
    by (simp add: CRUD_update_on_session on_session_eq shop_simps)
  have r: "fst (CRUD_read items (PyInt 9) shop) = Inr None"
    by (simp add: CRUD_read_def on_session_eq session_get_absent [OF a] shop_simps)
  have "select_body Item (Some [(''no_such_field'', PyNone)]) None None (shop 0)
          = (Inl AttributeError, shop 0)"
    by (simp add: select_body_def or_empty_def new_query_def Item_def raises_def Let_def)
  then have s: "fst (CRUD_select items (Some [(''no_such_field'', PyNone)]) None None shop)
                  = Inl AttributeError"
    by (simp add: CRUD_select_on_session on_session_eq shop_simps)
  from r u s show ?thesis by blast
qed

text \<open>
  C3, as the code has it. \<open>delete(id)\<close> for an id that no row has fails, but not at the
  load: \<open>read\<close> returns \<open>None\<close> without an error, \<open>session.delete\<close> is then called with
  that \<open>None\<close>, and this call is what raises (UnmappedInstanceError). No commit is issued;
  the rows, the committed rows and the staged work are as before.
\<close>

theorem delete_absent:
  assumes "ident \<noteq> PyNone"
    and "ident \<notin> set (map (pk_of (model self)) (rows (w (session self))))"
  shows "fst (CRUD_read self ident w) = Inr None
         \<and> CRUD_delete self ident wh sess w
             = (Inl UnmappedInstanceError,
                w(session self :=
                    logged (CallDelete None) (logged (CallGet ident) (w (session self)))))
         \<and> rows (snd (CRUD_delete self ident wh sess w) (session self)) = rows (w (session self))
         \<and> committed (snd (CRUD_delete self ident wh sess w) (session self))
             = committed (w (session self))
         \<and> pending (snd (CRUD_delete self ident wh sess w) (session self))
             = pending (w (session self))
         \<and> calls (snd (CRUD_delete self ident wh sess w) (session self))
             = calls (w (session self)) @ [CallGet ident, CallDelete None]"
proof -
  have "delete_body (model self) ident wh (w (session self))
          = (Inl UnmappedInstanceError,
             logged (CallDelete None) (logged (CallGet ident) (w (session self))))"
    using assms(1)
    by (simp add: delete_body_def then_do_def session_get_absent [OF assms(2)] session_delete_def)
  moreover have "fst (CRUD_read self ident w) = Inr None"
    by (simp add: CRUD_read_def on_session_eq session_get_absent [OF assms(2)])
  ultimately show ?thesis
    by (simp add: CRUD_delete_on_session on_session_eq logged_frame)
qed

theorem delete_absent_witness:
  "PyInt 9 \<noteq> PyNone
   \<and> PyInt 9 \<notin> set (map (pk_of (model items)) (rows (shop (session items))))
   \<and> fst (CRUD_delete items (PyInt 9) None None shop) = Inl UnmappedInstanceError
   \<and> rows (snd (CRUD_delete items (PyInt 9) None None shop) (session items)) = shop_rows"
proof -
  have a: "PyInt 9 \<notin> set (map (pk_of (model items)) (rows (shop (session items))))"
    by (simp add: shop_simps shop_keys)
  have b: "PyInt 9 \<noteq> PyNone" by simp
  from delete_absent [of "PyInt 9" items shop None None, OF b a] show ?thesis
    using a by (simp add: shop_simps logged_frame)
qed

text \<open>
  The claim C3 as written fails on the concrete store: for the absent id 9 the load
  returns \<open>None\<close> and does not fail, and the session does receive a \<open>delete\<close> call.
\<close>

theorem delete_absent_counterexample:
  "fst (CRUD_read items (PyInt 9) shop) = Inr None
   \<and> fst (CRUD_delete items (PyInt 9) None None shop) = Inl UnmappedInstanceError
   \<and> calls (snd (CRUD_delete items (PyInt 9) None None shop) 0)
       = [CallGet (PyInt 9), CallDelete None]"
proof -
  have a: "PyInt 9 \<notin> set (map (pk_of Item) (rows (shop 0)))"
    by (simp add: shop_simps shop_keys)
  have "delete_body Item (PyInt 9) None (shop 0)
          = (Inl UnmappedInstanceError,
             logged (CallDelete None) (logged (CallGet (PyInt 9)) (shop 0)))"
    by (simp add: delete_body_def then_do_def session_get_absent [OF a] session_delete_def)
  moreover have "fst (CRUD_read items (PyInt 9) shop) = Inr None"
    by (simp add: CRUD_read_def on_session_eq session_get_absent [OF a] shop_simps)
  ultimately show ?thesis
    by (simp add: CRUD_delete_on_session on_session_eq logged_frame shop_simps)
qed

section \<open>The session argument of delete\<close>

text \<open>
  C10. The \<open>session\<close> argument of \<open>delete\<close> is ignored: the result and the world after
  the call are the same whatever is passed for it, and every session other than the
  one bound at construction is left as it was.
\<close>

theorem delete_ignores_session_argument:
  "CRUD_delete self ident wh sess w = CRUD_delete self ident wh sess' w
   \<and> (\<forall>sid. sid \<noteq> session self \<longrightarrow> snd (CRUD_delete self ident wh sess w) sid = w sid)"
  by (simp add: CRUD_delete_on_session on_session_eq)

theorem delete_ignores_session_argument_witness:
  "(1::nat) \<noteq> session items
   \<and> snd (CRUD_delete items PyNone None (Some 1) shop) 1 = shop 1
   \<and> CRUD_delete items PyNone None (Some 1) shop = CRUD_delete items PyNone None None shop"
proof -
  have other: "(1::nat) \<noteq> session items" by (simp add: shop_simps)
  from delete_ignores_session_argument [of items PyNone None "Some 1" shop None] other
  show ?thesis by blast
qed

section \<open>Queries: filter, window and bulk delete\<close>

lemma where_loop_ok:
  "set (map fst wh) \<subseteq> set (model_fields m)
     \<Longrightarrow> where_loop m wh q = Inr (q\<lparr>criteria := criteria q @ wh\<rparr>)"
  by (induction wh arbitrary: q) auto

lemma flush_clean: "pending s = [] \<Longrightarrow> flush m s = (Inr (), s)"
  by (cases s) (simp add: flush_def)

lemma session_exec_clean:
  "pending s = [] \<Longrightarrow> session_exec m q s = run_query m q (logged (CallExec q) s)"
  by (simp add: session_exec_def flush_clean logged_frame)


lemma load_rows_Cons:
  "load_rows m (r # rs) s
     = (fst (load_row m r s) # fst (load_rows m rs (snd (load_row m r s))),
        snd (load_rows m rs (snd (load_row m r s))))"
  by (simp add: Let_def split: prod.splits)

lemma load_rows_attrs: "map attrs (fst (load_rows m rs s)) = rs"
  by (induction rs arbitrary: s) (simp_all only: load_rows_Cons load_rows.simps load_row_attrs fst_conv list.map)

lemma load_rows_frame:
  "rows (snd (load_rows m rs s)) = rows s \<and> committed (snd (load_rows m rs s)) = committed s
   \<and> pending (snd (load_rows m rs s)) = pending s \<and> calls (snd (load_rows m rs s)) = calls s"
  by (induction rs arbitrary: s)
    (simp_all only: load_rows_Cons load_rows.simps snd_conv
       load_row_rows load_row_committed load_row_pending load_row_calls)

lemma matches_iff: "matches crit r \<longleftrightarrow> (\<forall>(k, v) \<in> set crit. getattr r k = v)"
  by (auto simp: matches_def list_all_iff)

lemma select_body_clean:
  assumes "pending s = []" and "set (map fst (or_empty wh)) \<subseteq> set (model_fields m)"
    and "0 \<le> (or_default 0 skip)"
    and "0 \<le> (or_default 100 limit)"
  shows "\<exists>obs s'. select_body m wh skip limit s = (Inr (if obs \<noteq> [] then Some obs else None), s')
     \<and> map attrs obs = take (nat (or_default 100 limit))
                         (drop (nat (or_default 0 skip))
                            (filter (matches (or_empty wh)) (rows s)))
     \<and> rows s' = rows s \<and> committed s' = committed s \<and> pending s' = []"
proof -
  let ?sk = "or_default 0 skip"
  let ?li = "or_default 100 limit"
  let ?q = "\<lparr>stmt = SelectFrom, criteria = or_empty wh, q_offset = Some ?sk, q_limit = Some ?li\<rparr>"
  let ?s0 = "logged (CallExec ?q) s"
  let ?win = "window (Some ?sk) (Some ?li) (filter (matches (or_empty wh)) (rows s))"
  let ?L = "load_rows m ?win ?s0"
  have wl: "where_loop m (or_empty wh) (new_query SelectFrom)
               = Inr (\<lparr>stmt = SelectFrom, criteria = or_empty wh, q_offset = None, q_limit = None\<rparr>)"
    using where_loop_ok [OF assms(2), of "new_query SelectFrom"] by (simp add: new_query_def)
  have nb: "\<not> bad_window ?q" using assms(3,4) by (simp add: bad_window_def)
  have rq: "run_query m ?q ?s0 = (Inr (Rows (fst ?L)), snd ?L)"
    using nb by (simp add: run_query_def logged_frame split: prod.splits)
  have ex: "session_exec m ?q s = (Inr (Rows (fst ?L)), snd ?L)"
    using assms(1) rq by (simp add: session_exec_clean)
  have body: "select_body m wh skip limit s
                = (Inr (if fst ?L \<noteq> [] then Some (fst ?L) else None), snd ?L)"
    by (simp add: select_body_def wl Let_def then_do_def ex returns_def)
  have at: "map attrs (fst ?L) = ?win" by (rule load_rows_attrs)
  have fr: "rows (snd ?L) = rows s \<and> committed (snd ?L) = committed s \<and> pending (snd ?L) = []"
    using load_rows_frame [of m ?win ?s0] assms(1) by (simp add: logged_frame)
  show ?thesis
    using body at fr by (auto simp: window_def)
qed


lemma load_row_tracked:
  assumes "distinct (map fst (identity_map s))"
    and "list_all (\<lambda>(ob, k). ob < next_oid s) (identity_map s)"
  shows "map_of (identity_map (snd (load_row m r s))) (oid (fst (load_row m r s))) = Some (pk_of m r)"
proof (cases "find (\<lambda>(ob, k). k = pk_of m r) (identity_map s)")
  case None
  have "next_oid s \<notin> fst ` set (identity_map s)"
    using assms(2) by (auto simp: list_all_iff)
  then have "map_of (identity_map s) (next_oid s) = None"
    by (simp add: map_of_eq_None_iff)
  with None show ?thesis
    by (simp add: load_row_def map_add_def)
next
  case (Some p)
  obtain ob k where p: "p = (ob, k)" by (cases p)
  from Some p have "(ob, k) \<in> set (identity_map s)" and "k = pk_of m r"
    by (auto simp: find_Some_iff in_set_conv_nth)
  with assms(1) have "map_of (identity_map s) ob = Some (pk_of m r)" by simp
  with Some p show ?thesis by (simp add: load_row_def)
qed



lemma shop_owner_u1:
  "filter (\<lambda>r. \<forall>(k, v) \<in> set [(''owner_id'', PyStr ''u1'')]. getattr r k = v) shop_rows
     = [item (PyInt 1) ''Item title 1'' (PyStr ''first'') ''u1'',
        item (PyInt 2) ''Item title 2'' PyNone ''u1'',
        item (PyInt 3) ''Item title 3'' PyNone ''u1'']"
  by (simp add: shop_rows_def item_def getattr_def)

lemma Item_fields: "model_fields Item = [''id'', ''title'', ''description'', ''owner_id'']"
  by (simp add: Item_def)

lemma shop_title_1:
  "filter (\<lambda>r. \<forall>(k, v) \<in> set [(''title'', PyStr ''Item title 1'')]. getattr r k = v) shop_rows
     = [item (PyInt 1) ''Item title 1'' (PyStr ''first'') ''u1'',
        item (PyInt 4) ''Item title 1'' PyNone ''u2'']"
  by (simp add: shop_rows_def item_def getattr_def)

lemma shop_title_1_u2:
  "filter (\<lambda>r. \<forall>(k, v) \<in> set [(''title'', PyStr ''Item title 1''), (''owner_id'', PyStr ''u2'')].
                 getattr r k = v) shop_rows
     = [item (PyInt 4) ''Item title 1'' PyNone ''u2'']"
  by (simp add: shop_rows_def item_def getattr_def)

lemma select_body_window:
  assumes "pending s = []" and "set (map fst d) \<subseteq> set (model_fields m)"
    and "0 \<le> sk" and "0 \<le> lim"
  shows "\<exists>res s'. select_body m (Some d) (Some sk) (Some lim) s = (Inr res, s')
     \<and> (case res of None \<Rightarrow> [] | Some obs \<Rightarrow> map attrs obs)
         = take (nat lim) (drop (nat sk) (filter (\<lambda>r. \<forall>(k, v) \<in> set d. getattr r k = v) (rows s)))"
proof -
  have feq: "filter (\<lambda>r. \<forall>(k, v) \<in> set d. getattr r k = v) (rows s) = filter (matches d) (rows s)"
    by (rule filter_cong [OF refl]) (simp add: matches_iff)
  have h2: "set (map fst (or_empty (Some d))) \<subseteq> set (model_fields m)"
    using assms(2) by (simp add: or_empty_def)
  have h3: "0 \<le> or_default 0 (Some sk)" and h4: "0 \<le> or_default 100 (Some lim)"
    using assms(3,4) by (simp_all add: or_default_def)
  from select_body_clean [OF assms(1) h2 h3 h4]
  obtain obs s' where b: "select_body m (Some d) (Some sk) (Some lim) s
                            = (Inr (if obs \<noteq> [] then Some obs else None), s')"
    and a: "map attrs obs = take (nat (or_default 100 (Some lim))) (drop (nat (or_default 0 (Some sk)))
                              (filter (matches (or_empty (Some d))) (rows s)))"
    by blast
  from a have a': "map attrs obs = take (nat lim) (drop (nat sk) (filter (matches d) (rows s)))"
    by (simp add: or_default_def or_empty_def)
  show ?thesis
    using b a' by (cases "obs = []") (auto simp: feq)
qed

text \<open>
  C6. On a session with nothing staged, for a filter \<open>d\<close> whose keys are fields of the
  model and non-negative \<open>sk\<close> and \<open>lim\<close>: \<open>select(d, sk, lim)\<close> returns the rows that
  satisfy every \<open>key == value\<close> entry of \<open>d\<close>, in stored order, without the first \<open>sk\<close>
  of them and at most \<open>lim\<close> of the rest (\<open>None\<close> standing for no rows); an absent
  filter is the empty filter and keeps every row; a \<open>skip\<close> left out is 0 and a \<open>limit\<close>
  left out is 100; when exactly three rows \<open>r1, r2, r3\<close> satisfy the filter, skip 1
  and limit 1 give exactly \<open>r2\<close>.
\<close>

theorem select_filter_skip_limit:
  assumes "pending (w (session self)) = []"
    and "set (map fst d) \<subseteq> set (model_fields (model self))"
    and "0 \<le> sk" and "0 \<le> lim"
  shows "(\<exists>res. fst (CRUD_select self (Some d) (Some sk) (Some lim) w) = Inr res
            \<and> (case res of None \<Rightarrow> [] | Some obs \<Rightarrow> map attrs obs)
                = take (nat lim) (drop (nat sk)
                    (filter (\<lambda>r. \<forall>(k, v) \<in> set d. getattr r k = v) (rows (w (session self))))))
         \<and> (\<exists>res. fst (CRUD_select self None (Some sk) (Some lim) w) = Inr res
            \<and> (case res of None \<Rightarrow> [] | Some obs \<Rightarrow> map attrs obs)
                = take (nat lim) (drop (nat sk) (rows (w (session self)))))
         \<and> CRUD_select self None (Some sk) (Some lim) w = CRUD_select self (Some []) (Some sk) (Some lim) w
         \<and> CRUD_select self (Some d) None (Some lim) w = CRUD_select self (Some d) (Some 0) (Some lim) w
         \<and> CRUD_select self (Some d) (Some sk) None w = CRUD_select self (Some d) (Some sk) (Some 100) w
         \<and> CRUD_select self (Some d) None None w = CRUD_select self (Some d) (Some 0) (Some 100) w
         \<and> (\<forall>r1 r2 r3.
               filter (\<lambda>r. \<forall>(k, v) \<in> set d. getattr r k = v) (rows (w (session self))) = [r1, r2, r3]
               \<longrightarrow> (\<exists>ob. fst (CRUD_select self (Some d) (Some 1) (Some 1) w) = Inr (Some [ob])
                         \<and> attrs ob = r2))"
proof -
  let ?s = "w (session self)" and ?m = "model self"
  from select_body_window [OF assms(1) assms(2) assms(3) assms(4)]
  have 1: "\<exists>res. fst (CRUD_select self (Some d) (Some sk) (Some lim) w) = Inr res
            \<and> (case res of None \<Rightarrow> [] | Some obs \<Rightarrow> map attrs obs)
                = take (nat lim) (drop (nat sk)
                    (filter (\<lambda>r. \<forall>(k, v) \<in> set d. getattr r k = v) (rows ?s)))"
    by (auto simp: CRUD_select_on_session on_session_eq)
  have e: "set (map fst ([] :: fields)) \<subseteq> set (model_fields ?m)" by simp
  have 3: "CRUD_select self None (Some sk) (Some lim) w = CRUD_select self (Some []) (Some sk) (Some lim) w"
    by (simp add: CRUD_select_def or_empty_def)
  from select_body_window [OF assms(1) e assms(3) assms(4)]
  have "\<exists>res. fst (CRUD_select self (Some []) (Some sk) (Some lim) w) = Inr res
            \<and> (case res of None \<Rightarrow> [] | Some obs \<Rightarrow> map attrs obs)
                = take (nat lim) (drop (nat sk) (rows ?s))"
    by (auto simp: CRUD_select_on_session on_session_eq)
  then have 2: "\<exists>res. fst (CRUD_select self None (Some sk) (Some lim) w) = Inr res
            \<and> (case res of None \<Rightarrow> [] | Some obs \<Rightarrow> map attrs obs)
                = take (nat lim) (drop (nat sk) (rows ?s))"
    by (simp only: 3)
  have 4: "CRUD_select self (Some d) None (Some lim) w = CRUD_select self (Some d) (Some 0) (Some lim) w"
    and 5: "CRUD_select self (Some d) (Some sk) None w = CRUD_select self (Some d) (Some sk) (Some 100) w"
    and 6: "CRUD_select self (Some d) None None w = CRUD_select self (Some d) (Some 0) (Some 100) w"
    by (simp_all add: CRUD_select_def or_default_def)
  have 7: "\<exists>ob. fst (CRUD_select self (Some d) (Some 1) (Some 1) w) = Inr (Some [ob]) \<and> attrs ob = r2"
    if three: "filter (\<lambda>r. \<forall>(k, v) \<in> set d. getattr r k = v) (rows ?s) = [r1, r2, r3]"
    for r1 r2 r3
  proof -
    have one: "(0::int) \<le> 1" by simp
    from select_body_window [OF assms(1) assms(2) one one]
    obtain res s1 where b1: "select_body ?m (Some d) (Some 1) (Some 1) ?s = (Inr res, s1)"
      and a1: "(case res of None \<Rightarrow> [] | Some obs \<Rightarrow> map attrs obs)
                 = take (nat 1) (drop (nat 1)
                     (filter (\<lambda>r. \<forall>(k, v) \<in> set d. getattr r k = v) (rows ?s)))"
      by blast
    from a1 three have "(case res of None \<Rightarrow> [] | Some obs \<Rightarrow> map attrs obs) = [r2]"
      by simp
    then obtain ob where "res = Some [ob]" "attrs ob = r2"
      by (cases res) auto
    with b1 show ?thesis by (simp add: CRUD_select_on_session on_session_eq)
  qed
  from 1 2 3 4 5 6 7 show ?thesis by blast
qed

theorem select_filter_skip_limit_witness:
  "pending (shop (session items)) = []
   \<and> set (map fst [(''title'', PyStr ''Item title 1'')]) \<subseteq> set (model_fields (model items))
   \<and> set (map fst [(''title'', PyStr ''Item title 1''), (''owner_id'', PyStr ''u2'')])
       \<subseteq> set (model_fields (model items))
   \<and> (0::int) \<le> 0 \<and> (0::int) \<le> 1 \<and> (0::int) \<le> 5
   \<and> (\<exists>ob. fst (CRUD_select items (Some [(''title'', PyStr ''Item title 1'')]) (Some 1) (Some 1) shop)
              = Inr (Some [ob])
          \<and> attrs ob = item (PyInt 4) ''Item title 1'' PyNone ''u2'')
   \<and> (\<exists>ob. fst (CRUD_select items
                   (Some [(''title'', PyStr ''Item title 1''), (''owner_id'', PyStr ''u2'')])
                   (Some 0) (Some 5) shop)
              = Inr (Some [ob])
          \<and> attrs ob = item (PyInt 4) ''Item title 1'' PyNone ''u2'')
   \<and> (\<exists>ob. fst (CRUD_select items (Some [(''owner_id'', PyStr ''u1'')]) (Some 1) (Some 1) shop)
              = Inr (Some [ob])
          \<and> attrs ob = item (PyInt 2) ''Item title 2'' PyNone ''u1'')"
proof -
  let ?t = "[(''title'', PyStr ''Item title 1'')]"
  let ?tu = "[(''title'', PyStr ''Item title 1''), (''owner_id'', PyStr ''u2'')]"
  let ?u = "[(''owner_id'', PyStr ''u1'')]"
  let ?r4 = "item (PyInt 4) ''Item title 1'' PyNone ''u2''"
  have h1: "pending (shop (session items)) = []" by (simp add: shop_simps)
  have kt: "set (map fst ?t) \<subseteq> set (model_fields (model items))"
    and ktu: "set (map fst ?tu) \<subseteq> set (model_fields (model items))"
    and ku: "set (map fst ?u) \<subseteq> set (model_fields (model items))"
    by (simp_all add: shop_simps Item_fields)
  have z0: "(0::int) \<le> 0" and z1: "(0::int) \<le> 1" and z5: "(0::int) \<le> 5" by simp_all
  have rs: "rows (shop (session items)) = shop_rows" by (simp add: shop_simps)
  from select_filter_skip_limit [where w = shop and self = items and d = ?t and sk = 1 and lim = 1,
         OF h1 kt z1 z1]
  obtain res where r: "fst (CRUD_select items (Some ?t) (Some 1) (Some 1) shop) = Inr res"
    and a: "(case res of None \<Rightarrow> [] | Some obs \<Rightarrow> map attrs obs)
              = take (nat 1) (drop (nat 1)
                  (filter (\<lambda>r. \<forall>(k, v) \<in> set ?t. getattr r k = v) (rows (shop (session items)))))"
    by blast
  from a have "(case res of None \<Rightarrow> [] | Some obs \<Rightarrow> map attrs obs) = [?r4]"
    unfolding rs shop_title_1 by simp
  then obtain ob where "res = Some [ob]" "attrs ob = ?r4" by (cases res) auto
  with r have A: "\<exists>ob. fst (CRUD_select items (Some ?t) (Some 1) (Some 1) shop) = Inr (Some [ob])
          \<and> attrs ob = ?r4"
    by simp
  from select_filter_skip_limit [where w = shop and self = items and d = ?tu and sk = 0 and lim = 5,
         OF h1 ktu z0 z5]
  obtain res2 where r2: "fst (CRUD_select items (Some ?tu) (Some 0) (Some 5) shop) = Inr res2"
    and a2: "(case res2 of None \<Rightarrow> [] | Some obs \<Rightarrow> map attrs obs)
              = take (nat 5) (drop (nat 0)
                  (filter (\<lambda>r. \<forall>(k, v) \<in> set ?tu. getattr r k = v) (rows (shop (session items)))))"
    by blast
  from a2 have "(case res2 of None \<Rightarrow> [] | Some obs \<Rightarrow> map attrs obs) = [?r4]"
    unfolding rs shop_title_1_u2 by simp
  then obtain ob2 where "res2 = Some [ob2]" "attrs ob2 = ?r4" by (cases res2) auto
  with r2 have B: "\<exists>ob. fst (CRUD_select items (Some ?tu) (Some 0) (Some 5) shop) = Inr (Some [ob])
          \<and> attrs ob = ?r4"
    by simp
  have three: "filter (\<lambda>r. \<forall>(k, v) \<in> set ?u. getattr r k = v) (rows (shop (session items)))
     = [item (PyInt 1) ''Item title 1'' (PyStr ''first'') ''u1'',
        item (PyInt 2) ''Item title 2'' PyNone ''u1'',
        item (PyInt 3) ''Item title 3'' PyNone ''u1'']"
    unfolding rs by (rule shop_owner_u1)
  from select_filter_skip_limit [where w = shop and self = items and d = ?u and sk = 1 and lim = 1,
         OF h1 ku z1 z1] three
  have C: "\<exists>ob. fst (CRUD_select items (Some ?u) (Some 1) (Some 1) shop) = Inr (Some [ob])
          \<and> attrs ob = item (PyInt 2) ''Item title 2'' PyNone ''u1''"
    by blast
  from h1 kt ktu z0 z1 z5 A B C show ?thesis by blast
qed





lemma shop_ok: "session_ok (shop 0)"
  by (simp add: session_ok_def shop_simps)



section \<open>Create\<close>

lemma getattr_setattr: "getattr (setattr a k v) k = v"
  by (induction a) (auto simp: getattr_def)

lemma pk_setattr: "pk_of m (setattr a (primary_key m) v) = v"
  by (simp add: pk_of_def getattr_setattr)

lemma fold_max_ge: "b \<le> fold max xs (b::int)"
  by (induction xs arbitrary: b) (auto intro: order_trans [OF max.cobounded2])

lemma fold_max_mem: "i \<in> set xs \<Longrightarrow> i \<le> fold max xs (b::int)"
proof (induction xs arbitrary: b)
  case Nil
  then show ?case by simp
next
  case (Cons x xs)
  show ?case
  proof (cases "i = x")
    case True
    have "max x b \<le> fold max xs (max x b)" by (rule fold_max_ge)
    with True show ?thesis by simp
  next
    case False
    with Cons show ?thesis by simp
  qed
qed

lemma int_keys_mem: "PyInt i \<in> set ks \<Longrightarrow> i \<in> set (int_keys ks)"
  by (induction ks rule: int_keys.induct) auto

lemma fresh_key_free: "fresh_key m rs \<notin> set (map (pk_of m) rs)"
proof
  assume "fresh_key m rs \<in> set (map (pk_of m) rs)"
  then have "1 + fold max (int_keys (map (pk_of m) rs)) 0 \<in> set (int_keys (map (pk_of m) rs))"
    unfolding fresh_key_def by (rule int_keys_mem)
  from fold_max_mem [OF this, of 0] show False by simp
qed

lemma find_append_new:
  "k \<notin> set (map (pk_of m) rs) \<Longrightarrow> pk_of m a = k
     \<Longrightarrow> find (\<lambda>r. pk_of m r = k) (rs @ [a]) = Some a"
  by (induction rs) auto

lemma create_body_new:
  assumes p0: "pending s = []" and new: "map_of (identity_map s) (oid e) = None"
    and free: "pk_of m (attrs e) = PyNone \<or> pk_of m (attrs e) \<notin> set (map (pk_of m) (rows s))"
  shows "\<exists>e' s'. create_body m e s = (Inr e', s') \<and> oid e' = oid e
     \<and> attrs e' = (if pk_of m (attrs e) = PyNone
                   then setattr (attrs e) (primary_key m) (fresh_key m (rows s)) else attrs e)
     \<and> pk_of m (attrs e') \<noteq> PyNone
     \<and> rows s' = rows s @ [attrs e'] \<and> committed s' = rows s' \<and> pending s' = []
     \<and> calls s' = calls s @ [CallAdd e, CallCommit, CallRefresh e]"
proof -
  define a' where "a' = (if pk_of m (attrs e) = PyNone
                   then setattr (attrs e) (primary_key m) (fresh_key m (rows s)) else attrs e)"
  have nn: "pk_of m a' \<noteq> PyNone"
    by (simp add: a'_def pk_setattr fresh_key_def)
  have fr: "pk_of m a' \<notin> set (map (pk_of m) (rows s))"
    using free fresh_key_free [of m "rows s"] by (auto simp: a'_def pk_setattr)
  define s1 where "s1 = (logged (CallAdd e) s)\<lparr>pending := [Insert (oid e) (attrs e)]\<rparr>"
  have add: "session_add m e s = (Inr (), s1)"
    using p0 new by (simp add: session_add_def s1_def Let_def logged_frame)
  define s2 where "s2 = s\<lparr>rows := rows s @ [a'], committed := rows s @ [a'],
                           identity_map := identity_map s @ [(oid e, pk_of m a')],
                           calls := calls s @ [CallAdd e, CallCommit]\<rparr>"
  have fl: "flush_all m (pending (logged CallCommit s1)) (logged CallCommit s1)
              = Inr ((logged CallCommit s1)\<lparr>rows := rows s @ [a'],
                       identity_map := identity_map s @ [(oid e, pk_of m a')]\<rparr>)"
    using fr by (cases "pk_of m (attrs e) = PyNone")
      (simp_all add: s1_def logged_def a'_def Let_def pk_setattr)
  have com: "session_commit m s1 = (Inr (), s2)"
    using p0 by (simp add: session_commit_def flush_def fl) (simp add: s1_def s2_def logged_def)
  have tr: "map_of (identity_map s2) (oid e) = Some (pk_of m a')"
    using new by (simp add: s2_def map_add_def)
  have fd: "find (\<lambda>r. pk_of m r = pk_of m a') (rows s2) = Some a'"
    using find_append_new [OF fr refl] by (simp add: s2_def)
  have ref: "session_refresh m e s2 = (Inr (e\<lparr>attrs := a'\<rparr>), logged (CallRefresh e) s2)"
    using tr fd by (simp add: session_refresh_def Let_def logged_frame)
  have "create_body m e s = (Inr (e\<lparr>attrs := a'\<rparr>), logged (CallRefresh e) s2)"
    by (simp add: create_body_def then_do_def add com ref)
  moreover have "rows (logged (CallRefresh e) s2) = rows s @ [a']"
    "committed (logged (CallRefresh e) s2) = rows s @ [a']"
    "pending (logged (CallRefresh e) s2) = []"
    "calls (logged (CallRefresh e) s2) = calls s @ [CallAdd e, CallCommit, CallRefresh e]"
    using p0 by (simp_all add: s2_def logged_def)
  ultimately show ?thesis using nn unfolding a'_def [symmetric]
    by (intro exI [of _ "e\<lparr>attrs := a'\<rparr>"] exI [of _ "logged (CallRefresh e) s2"]) simp
qed

lemma shop_fresh_key: "fresh_key Item shop_rows = PyInt 5"
  by (simp add: fresh_key_def shop_keys)

text \<open>
  C9. \<open>create(e)\<close> for a new object \<open>e\<close> on a session with nothing staged, when the key of
  \<open>e\<close> is unset or no row has it: the session receives exactly \<open>add(e)\<close>, \<open>commit()\<close> and
  \<open>refresh(e)\<close>; the row is appended and committed; the object returned is \<open>e\<close> with the
  fields of the stored row, and its key is not \<open>None\<close>: the key of \<open>e\<close> when it had one,
  the key the store assigned otherwise.
\<close>

theorem create_assigns_identity:
  assumes "pending (w (session self)) = []"
    and "map_of (identity_map (w (session self))) (oid e) = None"
    and "pk_of (model self) (attrs e) = PyNone
         \<or> pk_of (model self) (attrs e) \<notin> set (map (pk_of (model self)) (rows (w (session self))))"
  shows "\<exists>e'. fst (CRUD_create self e w) = Inr e' \<and> oid e' = oid e
     \<and> pk_of (model self) (attrs e') \<noteq> PyNone
     \<and> attrs e' = (if pk_of (model self) (attrs e) = PyNone
                   then setattr (attrs e) (primary_key (model self))
                          (fresh_key (model self) (rows (w (session self))))
                   else attrs e)
     \<and> rows (snd (CRUD_create self e w) (session self)) = rows (w (session self)) @ [attrs e']
     \<and> committed (snd (CRUD_create self e w) (session self))
         = rows (snd (CRUD_create self e w) (session self))
     \<and> pending (snd (CRUD_create self e w) (session self)) = []
     \<and> calls (snd (CRUD_create self e w) (session self))
         = calls (w (session self)) @ [CallAdd e, CallCommit, CallRefresh e]"
proof -
  from create_body_new [OF assms(1) assms(2) assms(3)]
  obtain e' s' where b: "create_body (model self) e (w (session self)) = (Inr e', s')"
    and f: "oid e' = oid e"
      "attrs e' = (if pk_of (model self) (attrs e) = PyNone
                   then setattr (attrs e) (primary_key (model self))
                          (fresh_key (model self) (rows (w (session self))))
                   else attrs e)"
      "pk_of (model self) (attrs e') \<noteq> PyNone"
      "rows s' = rows (w (session self)) @ [attrs e']" "committed s' = rows s'" "pending s' = []"
      "calls s' = calls (w (session self)) @ [CallAdd e, CallCommit, CallRefresh e]"
    by blast
  have "CRUD_create self e w = (Inr e', w(session self := s'))"
    using b by (simp add: CRUD_create_on_session on_session_eq)
  with f show ?thesis by simp
qed

theorem create_assigns_identity_witness:
  "pending (shop (session items)) = []
   \<and> map_of (identity_map (shop (session items)))
        (oid \<lparr>oid = 7, attrs = item PyNone ''Item title'' PyNone ''u1''\<rparr>) = None
   \<and> pk_of (model items) (attrs \<lparr>oid = 7, attrs = item PyNone ''Item title'' PyNone ''u1''\<rparr>) = PyNone
   \<and> (\<exists>e'. fst (CRUD_create items \<lparr>oid = 7, attrs = item PyNone ''Item title'' PyNone ''u1''\<rparr> shop) = Inr e'
          \<and> attrs e' = item (PyInt 5) ''Item title'' PyNone ''u1''
          \<and> pk_of (model items) (attrs e') \<noteq> PyNone)"
proof -
  let ?e = "\<lparr>oid = 7, attrs = item PyNone ''Item title'' PyNone ''u1''\<rparr>"
  have h1: "pending (shop (session items)) = []" by (simp add: shop_simps)
  have h2: "map_of (identity_map (shop (session items))) (oid ?e) = None" by (simp add: shop_simps)
  have h3: "pk_of (model items) (attrs ?e) = PyNone"
    by (simp add: shop_simps pk_of_def getattr_def item_def Item_def)
  have h3': "pk_of (model items) (attrs ?e) = PyNone
         \<or> pk_of (model items) (attrs ?e) \<notin> set (map (pk_of (model items)) (rows (shop (session items))))"
    using h3 by blast
  have st: "setattr (attrs ?e) (primary_key (model items))
              (fresh_key (model items) (rows (shop (session items))))
            = item (PyInt 5) ''Item title'' PyNone ''u1''"
    by (simp only: shop_simps shop_fresh_key) (simp add: item_def Item_def)
  from create_assigns_identity [where w = shop and self = items and e = ?e, OF h1 h2 h3'] h3 st
  have "\<exists>e'. fst (CRUD_create items ?e shop) = Inr e'
          \<and> attrs e' = item (PyInt 5) ''Item title'' PyNone ''u1''
          \<and> pk_of (model items) (attrs e') \<noteq> PyNone"
    by auto
  with h1 h2 h3 show ?thesis by blast
qed

section \<open>Update of a stored row\<close>

lemma setattr_append:
  "k \<notin> set (map fst xs) \<Longrightarrow> setattr (xs @ (k, v0) # ys) k v = xs @ (k, v) # ys"
  by (induction xs) auto

lemma map_of_dict_pop: "k' \<noteq> k \<Longrightarrow> map_of (dict_pop upd k) k' = map_of upd k'"
  by (induction upd) (auto simp: dict_pop_def)

lemma update_loop_replace:
  "distinct (map fst todo) \<Longrightarrow> set (map fst done) \<inter> set (map fst todo) = {}
   \<Longrightarrow> fst (update_loop (map fst todo) obj upd (done @ todo))
        = done @ map (\<lambda>(k, v). (k, case map_of upd k of Some v' \<Rightarrow> v' | None \<Rightarrow> getattr obj k)) todo"
proof (induction todo arbitrary: "done" upd)
  case Nil
  then show ?case by simp
next
  case (Cons p todo)
  obtain k v where p: "p = (k, v)" by (cases p)
  from Cons.prems p have kd: "k \<notin> set (map fst done)" and kt: "k \<notin> set (map fst todo)"
    and dt: "distinct (map fst todo)" by auto
  have disj: "set (map fst (done @ [(k, x)])) \<inter> set (map fst todo) = {}" for x
    using Cons.prems p by auto
  have sa: "setattr (done @ (k, v) # todo) k x = (done @ [(k, x)]) @ todo" for x
    using setattr_append [OF kd] by simp
  show ?case
  proof (cases "map_of upd k")
    case None
    have "fst (update_loop (map fst todo) obj upd ((done @ [(k, getattr obj k)]) @ todo))
            = (done @ [(k, getattr obj k)])
              @ map (\<lambda>(k, v). (k, case map_of upd k of Some v' \<Rightarrow> v' | None \<Rightarrow> getattr obj k)) todo"
      by (rule Cons.IH [OF dt disj])
    with None show ?thesis by (simp add: p sa)
  next
    case (Some x)
    have eq: "map (\<lambda>(k', v). (k', case map_of (dict_pop upd k) k' of Some v' \<Rightarrow> v' | None \<Rightarrow> getattr obj k')) todo
            = map (\<lambda>(k', v). (k', case map_of upd k' of Some v' \<Rightarrow> v' | None \<Rightarrow> getattr obj k')) todo"
    proof (intro map_cong refl)
      fix q assume q: "q \<in> set todo"
      then have "fst q \<noteq> k" using kt by force
      then show "(case q of (k', v) \<Rightarrow> (k', case map_of (dict_pop upd k) k' of Some v' \<Rightarrow> v' | None \<Rightarrow> getattr obj k'))
               = (case q of (k', v) \<Rightarrow> (k', case map_of upd k' of Some v' \<Rightarrow> v' | None \<Rightarrow> getattr obj k'))"
        by (cases q) (simp add: map_of_dict_pop)
    qed
    have "fst (update_loop (map fst todo) obj (dict_pop upd k) ((done @ [(k, x)]) @ todo))
            = (done @ [(k, x)])
              @ map (\<lambda>(k', v). (k', case map_of (dict_pop upd k) k' of Some v' \<Rightarrow> v' | None \<Rightarrow> getattr obj k')) todo"
      by (rule Cons.IH [OF dt disj])
    with Some eq show ?thesis by (simp add: p sa)
  qed
qed

lemma update_loop_rest:
  "set (map fst (snd (update_loop ks obj upd self))) \<subseteq> set (map fst upd) - set ks"
proof (induction ks arbitrary: upd self)
  case Nil
  then show ?case by simp
next
  case (Cons k ks)
  show ?case
  proof (cases "map_of upd k")
    case None
    then have "k \<notin> set (map fst upd)" by (simp add: map_of_eq_None_iff)
    with Cons [of upd "setattr self k (getattr obj k)"] None show ?thesis by auto
  next
    case (Some x)
    have "set (map fst (dict_pop upd k)) = set (map fst upd) - {k}"
      by (auto simp: dict_pop_def)
    with Cons [of "dict_pop upd k" "setattr self k x"] Some show ?thesis by auto
  qed
qed

lemma remaining_loop_none:
  "set (map fst rest) \<inter> set fs = {} \<Longrightarrow> remaining_loop rest fs self = self"
  by (induction rest fs self rule: remaining_loop.induct) auto

lemma overlay_all:
  "map fst a = map fst d \<Longrightarrow> (\<forall>(k, w) \<in> set d. f k = w) \<Longrightarrow> map (\<lambda>(k, v). (k, f k)) a = d"
proof (induction a arbitrary: d)
  case Nil
  then show ?case by simp
next
  case (Cons p a)
  then obtain q d' where d: "d = q # d'" by (cases d) auto
  with Cons.prems have "fst p = fst q" "map fst a = map fst d'" "\<forall>(k, w) \<in> set d'. f k = w"
    "f (fst q) = snd q" by auto
  with Cons.IH [of d'] d show ?case by (cases p; cases q) simp
qed

lemma sqlmodel_update_full:
  assumes "distinct (map fst (attrs it))" and "map fst (attrs it) = map fst d"
  shows "sqlmodel_update it it d = it\<lparr>attrs := d\<rparr>"
proof -
  let ?a = "attrs it"
  let ?L = "update_loop (map fst ?a) ?a d ?a"
  have f: "fst ?L = map (\<lambda>(k, v). (k, case map_of d k of Some v' \<Rightarrow> v' | None \<Rightarrow> getattr ?a k)) ?a"
    using update_loop_replace [of ?a "[]" ?a d] assms(1) by simp
  have dd: "distinct (map fst d)" using assms by simp
  have "\<forall>(k, w) \<in> set d. (case map_of d k of Some v' \<Rightarrow> v' | None \<Rightarrow> getattr ?a k) = w"
    using dd by auto
  from overlay_all [OF assms(2) this] f have f': "fst ?L = d" by simp
  have "set (map fst (snd ?L)) \<inter> set (map fst ?a) = {}"
    using update_loop_rest [of "map fst ?a" ?a d ?a] by auto
  then have "remaining_loop (snd ?L) (map fst ?a) (fst ?L) = fst ?L"
    by (rule remaining_loop_none)
  with f' show ?thesis
    by (simp add: sqlmodel_update_def case_prod_beta)
qed

lemma map_of_retarget:
  "map_of im ob = Some k
     \<Longrightarrow> map_of (map (\<lambda>(ob', k'). if ob' = ob then (ob', v) else (ob', k')) im) ob = Some v"
  by (induction im) (auto split: if_splits)

lemma find_replaced:
  "ident \<in> set (map (pk_of m) rs)
     \<Longrightarrow> pk_of m a = ident \<or> pk_of m a \<notin> set (map (pk_of m) rs)
     \<Longrightarrow> find (\<lambda>r. pk_of m r = pk_of m a) (map (\<lambda>r. if pk_of m r = ident then a else r) rs) = Some a"
  by (induction rs) auto

lemma update_body_present:
  assumes ok: "session_ok s" and dist: "distinct (model_fields m)"
    and inst: "list_all (instance_of m) (rows s)" and inst2: "instance_of m (attrs e2)"
    and pres: "ident \<in> set (map (pk_of m) (rows s))"
    and nn: "pk_of m (attrs e2) \<noteq> PyNone"
    and free: "pk_of m (attrs e2) = ident \<or> pk_of m (attrs e2) \<notin> set (map (pk_of m) (rows s))"
  shows "\<exists>it s'. update_body m ident e2 s = (Inr it, s') \<and> attrs it = attrs e2
     \<and> rows s' = map (\<lambda>r. if pk_of m r = ident then attrs e2 else r) (rows s)
     \<and> committed s' = rows s' \<and> pending s' = []
     \<and> calls s' = calls s @ [CallGet ident, CallAdd it, CallCommit, CallRefresh it]"
proof -
  from find_Some_pk [OF pres] obtain r where
    r: "find (\<lambda>r. pk_of m r = ident) (rows s) = Some r" and rin: "r \<in> set (rows s)"
    and pk: "pk_of m r = ident" by blast
  from inst rin have ri: "map fst r = model_fields m"
    by (auto simp: list_all_iff instance_of_def)
  define s0 where "s0 = logged (CallGet ident) s"
  define ob where "ob = fst (load_row m r s0)"
  define s1 where "s1 = snd (load_row m r s0)"
  have get: "session_get m ident s = (Inr (Some ob), s1)"
    using r by (simp add: session_get_def Let_def logged_frame s0_def ob_def s1_def split: prod.splits)
  from ok have d: "distinct (map fst (identity_map s0))"
    and b: "list_all (\<lambda>(ob, k). ob < next_oid s0) (identity_map s0)"
    and p0: "pending s = []"
    by (simp_all add: session_ok_def logged_frame s0_def)
  have tr: "map_of (identity_map s1) (oid ob) = Some ident"
    using load_row_tracked [OF d b, of m r] pk by (simp add: ob_def s1_def)
  have s1f: "pending s1 = []" "rows s1 = rows s" "calls s1 = calls s @ [CallGet ident]"
    using p0 by (simp_all add: s1_def s0_def load_row_pending load_row_rows load_row_calls logged_frame)
  have oa: "attrs ob = r" by (simp add: ob_def load_row_attrs)
  define it where "it = ob\<lparr>attrs := attrs e2\<rparr>"
  have merge: "sqlmodel_update ob ob (model_dump e2) = it"
    unfolding model_dump_def it_def
    using dist inst2 ri by (intro sqlmodel_update_full) (simp_all add: oa instance_of_def)
  have itf: "oid it = oid ob" "attrs it = attrs e2" by (simp_all add: it_def)
  define s2 where "s2 = (logged (CallAdd it) s1)\<lparr>pending := [Update (oid ob) (attrs e2)]\<rparr>"
  have add: "session_add m it s1 = (Inr (), s2)"
    using tr s1f(1) by (simp add: session_add_def Let_def logged_frame s2_def itf)
  define s3 where "s3 = (logged CallCommit s2)
        \<lparr>rows := map (\<lambda>r. if pk_of m r = ident then attrs e2 else r) (rows s),
          identity_map := map (\<lambda>(ob', k'). if ob' = oid ob then (ob', pk_of m (attrs e2)) else (ob', k'))
                            (identity_map s1),
          pending := [],
          committed := map (\<lambda>r. if pk_of m r = ident then attrs e2 else r) (rows s)\<rparr>"
  have s2f: "identity_map (logged CallCommit s2) = identity_map s1" "rows (logged CallCommit s2) = rows s"
    "pending (logged CallCommit s2) = [Update (oid ob) (attrs e2)]"
    using s1f by (simp_all add: s2_def logged_def)
  have fo: "flush_one m (Update (oid ob) (attrs e2)) (logged CallCommit s2)
      = Inr ((logged CallCommit s2)
               \<lparr>rows := map (\<lambda>r. if pk_of m r = ident then attrs e2 else r) (rows s),
                 identity_map := map (\<lambda>(ob', k'). if ob' = oid ob then (ob', pk_of m (attrs e2)) else (ob', k'))
                            (identity_map s1)\<rparr>)"
    using tr nn free by (auto simp: s2f)
  have fa: "flush_all m [Update (oid ob) (attrs e2)] (logged CallCommit s2)
      = Inr ((logged CallCommit s2)
               \<lparr>rows := map (\<lambda>r. if pk_of m r = ident then attrs e2 else r) (rows s),
                 identity_map := map (\<lambda>(ob', k'). if ob' = oid ob then (ob', pk_of m (attrs e2)) else (ob', k'))
                            (identity_map s1)\<rparr>)"
    by (simp only: flush_all.simps fo sum.case)
  have com: "session_commit m s2 = (Inr (), s3)"
    unfolding session_commit_def flush_def s2f(3) fa by (simp add: s3_def)
  have s3f: "rows s3 = map (\<lambda>r. if pk_of m r = ident then attrs e2 else r) (rows s)"
    "committed s3 = rows s3" "pending s3 = []"
    "identity_map s3 = map (\<lambda>(ob', k'). if ob' = oid ob then (ob', pk_of m (attrs e2)) else (ob', k'))
                            (identity_map s1)"
    "calls s3 = calls s @ [CallGet ident, CallAdd it, CallCommit]"
    using s1f by (simp_all add: s3_def s2_def logged_def)
  have tr3: "map_of (identity_map s3) (oid it) = Some (pk_of m (attrs e2))"
    using map_of_retarget [OF tr] by (simp add: s3f itf)
  have fd: "find (\<lambda>r. pk_of m r = pk_of m (attrs e2)) (rows s3) = Some (attrs e2)"
    using find_replaced [OF pres free] by (simp add: s3f)
  have ref: "session_refresh m it s3 = (Inr it, logged (CallRefresh it) s3)"
    using tr3 fd by (simp add: session_refresh_def Let_def logged_frame it_def)
  have "update_body m ident e2 s = (Inr it, logged (CallRefresh it) s3)"
    by (simp add: update_body_def then_do_def get merge Let_def add com ref)
  moreover have "rows (logged (CallRefresh it) s3) = map (\<lambda>r. if pk_of m r = ident then attrs e2 else r) (rows s)"
    "committed (logged (CallRefresh it) s3) = rows (logged (CallRefresh it) s3)"
    "pending (logged (CallRefresh it) s3) = []"
    "calls (logged (CallRefresh it) s3) = calls s @ [CallGet ident, CallAdd it, CallCommit, CallRefresh it]"
    using s3f by (simp_all add: logged_frame)
  ultimately show ?thesis using itf(2) by blast
qed


lemma shop_instances: "list_all (instance_of Item) shop_rows"
  by (simp add: instance_of_def shop_rows_def item_def Item_def)

lemma shop_replace_1:
  "map (\<lambda>r. if pk_of Item r = PyInt 1 then a else r) shop_rows
     = [a, item (PyInt 2) ''Item title 2'' PyNone ''u1'',
        item (PyInt 3) ''Item title 3'' PyNone ''u1'',
        item (PyInt 4) ''Item title 1'' PyNone ''u2'']"
  by (simp add: shop_rows_def item_def Item_def pk_of_def getattr_def)




text \<open>
  C2 on the code. The dump of the entity carries its key like any other field, so the
  merge overwrites the key of the loaded row. On the concrete store, \<open>update\<close> of row 1
  with an entity whose key is 7 returns and stores a row with key 7: no row has key 1
  afterwards, and the row is no longer found under the id that was passed.
\<close>

theorem update_overwrites_identity:
  "map_sum id attrs
     (fst (CRUD_update items (PyInt 1)
             \<lparr>oid = 9, attrs = item (PyInt 7) ''Original title updated'' PyNone ''u1''\<rparr> shop))
     = Inr (item (PyInt 7) ''Original title updated'' PyNone ''u1'')
   \<and> map (pk_of Item)
        (rows (snd (CRUD_update items (PyInt 1)
                      \<lparr>oid = 9, attrs = item (PyInt 7) ''Original title updated'' PyNone ''u1''\<rparr> shop) 0))
       = [PyInt 7, PyInt 2, PyInt 3, PyInt 4]"
proof -
  let ?a = "item (PyInt 7) ''Original title updated'' PyNone ''u1''"
  let ?e = "\<lparr>oid = 9, attrs = ?a\<rparr>"
  have k: "pk_of Item (attrs ?e) = PyInt 7"
    by (simp add: pk_of_def getattr_def item_def Item_def)
  have h4: "instance_of Item (attrs ?e)" by (simp add: instance_of_def item_def Item_def)
  have h5: "PyInt 1 \<in> set (map (pk_of Item) (rows (shop 0)))" by (simp add: shop_simps shop_keys)
  have h6: "pk_of Item (attrs ?e) \<noteq> PyNone" using k by simp
  have h7: "pk_of Item (attrs ?e) = PyInt 1 \<or> pk_of Item (attrs ?e) \<notin> set (map (pk_of Item) (rows (shop 0)))"
    using k by (simp add: shop_simps shop_keys)
  have h1: "session_ok (shop 0)" by (rule shop_ok)
  have h2: "distinct (model_fields Item)" by (simp add: Item_fields)
  have h3: "list_all (instance_of Item) (rows (shop 0))" using shop_instances by (simp add: shop_simps)
  from update_body_present [OF h1 h2 h3 h4 h5 h6 h7]
  obtain it s' where b: "update_body Item (PyInt 1) ?e (shop 0) = (Inr it, s')"
    and f: "attrs it = attrs ?e"
      "rows s' = map (\<lambda>r. if pk_of Item r = PyInt 1 then attrs ?e else r) (rows (shop 0))"
    by blast
  have u: "CRUD_update items (PyInt 1) ?e shop = (Inr it, shop(0 := s'))"
    using b by (simp add: CRUD_update_on_session on_session_eq shop_simps)
  have r: "rows s' = [?a, item (PyInt 2) ''Item title 2'' PyNone ''u1'',
        item (PyInt 3) ''Item title 3'' PyNone ''u1'',
        item (PyInt 4) ''Item title 1'' PyNone ''u2'']"
  proof -
    have ae: "attrs ?e = ?a" by simp
    from f(2) show ?thesis unfolding ae shop_simps by (simp only: shop_replace_1)
  qed
  have ks: "map (pk_of Item) (rows s') = [PyInt 7, PyInt 2, PyInt 3, PyInt 4]"
    unfolding r by (simp add: pk_of_def getattr_def item_def Item_def)
  from u f(1) ks show ?thesis by simp
qed

end
